theory Spec2Isabelle
  imports Main
begin

section \<open>Topic moderation views of django-machina\<close>

text \<open>
  The module defines three class-based views, \<^verbatim>\<open>TopicLockView\<close>,
  \<^verbatim>\<open>TopicDeleteView\<close> and \<^verbatim>\<open>TopicMoveView\<close>. Each one fetches a
  \<^verbatim>\<open>Topic\<close> through the ORM, mutates or deletes it, records a flash message
  and answers with a redirect. The embedding makes the ORM an explicit store
  (two tables keyed by primary key), the flash messages and the persistence
  calls explicit logs, and every exception a value of a sum type.
\<close>

subsection \<open>Data model\<close>

text \<open>
  \<^verbatim>\<open>Forum\<close> and \<^verbatim>\<open>Topic\<close> are obtained with \<^verbatim>\<open>get_model\<close>; the
  views read \<^verbatim>\<open>pk\<close> and \<^verbatim>\<open>slug\<close> of both, and \<^verbatim>\<open>status\<close> and
  \<^verbatim>\<open>forum\<close> of a topic. A topic row stores the foreign key
  \<^verbatim>\<open>forum_id\<close>; every further column of the topic is kept in the
  extension slot of the record.
\<close>

record forum =
  forum_pk :: int
  forum_slug :: string

text \<open>
  Modelled from the spec: the enumeration \<^verbatim>\<open>Topic.STATUS_CHOICES\<close> is declared
  in the model class, which is not part of this module. The spec names the
  values normal, locked and moved; the views use \<^verbatim>\<open>topic_locked\<close> and
  \<^verbatim>\<open>topic_moved\<close>.
\<close>

datatype status = topic_unlocked | topic_locked | topic_moved

record topic =
  topic_pk :: int
  topic_slug :: string
  status :: status
  forum_id :: int

text \<open>
  A model instance in memory: the column values and the related-object cache of
  the \<^verbatim>\<open>forum\<close> descriptor. Reading \<^verbatim>\<open>topic.forum\<close> fills the cache from the
  store, assigning \<^verbatim>\<open>topic.forum = f\<close> sets the cache and the foreign key.
\<close>

record 'x topic_instance =
  row :: "'x topic_scheme"
  forum_cache :: "forum option"

datatype 'x db_call =
    Saved_topic "'x topic_scheme"
  | Saved_forum forum
  | Deleted_topic "'x topic_scheme"

text \<open>
  The state a request runs against: both tables, the flash messages recorded by
  \<^verbatim>\<open>messages.success\<close> (oldest first) and the persistence calls issued
  (oldest first).
\<close>

record 'x world =
  topics :: "int \<rightharpoonup> 'x topic_scheme"
  forums :: "int \<rightharpoonup> forum"
  messages :: "string list"
  persisted :: "'x db_call list"

datatype error = Http404 | DoesNotExist | PermissionDenied | NoReverseMatch

text \<open>
  The permission handler is injected on the request; only the three capability
  predicates the views call are modelled, as parameters.
\<close>

record 'u permission_handler =
  can_close_topics :: "forum \<Rightarrow> 'u \<Rightarrow> bool"
  can_delete_topics :: "forum \<Rightarrow> 'u \<Rightarrow> bool"
  can_move_topics :: "forum \<Rightarrow> 'u \<Rightarrow> bool"

text \<open>
  A URL is kept symbolic: the route it was built for and the keyword arguments in
  the order written. The URL configuration lives outside this module, so it is a
  parameter: a resolver that yields the URL for a route name and keyword arguments,
  or nothing when no pattern of the route accepts them.
\<close>

datatype kwarg = KStr string | KInt int

record url =
  route :: string
  route_kwargs :: "(string \<times> kwarg) list"

type_synonym urlconf = "string \<Rightarrow> (string \<times> kwarg) list \<Rightarrow> url option"

record 'u request =
  user :: 'u
  forum_permission_handler :: "'u permission_handler"
  pk_kwarg :: int
  urlconf :: urlconf

text \<open>
  \<^verbatim>\<open>reverse\<close> resolves against the URL configuration active for the request
  and raises \<^verbatim>\<open>NoReverseMatch\<close> when the route refuses the arguments.
\<close>

definition reverse :: "'u request \<Rightarrow> string \<Rightarrow> (string \<times> kwarg) list \<Rightarrow> error + url" where
  "reverse req name kw =
     (case urlconf req name kw of None \<Rightarrow> Inl NoReverseMatch | Some u \<Rightarrow> Inr u)"

datatype response = HttpResponseRedirect url | TemplateResponse string

text \<open>The submitted move form: the destination forum and the lock flag.\<close>

record cleaned_data =
  cd_forum :: forum
  cd_lock_topic :: bool

datatype form = Invalid_form | Valid_form cleaned_data

subsection \<open>ORM primitives\<close>

definition get_object :: "'u request \<Rightarrow> 'x world \<Rightarrow> error + 'x topic_instance" where
  "get_object req w =
     (case topics w (pk_kwarg req) of
        None \<Rightarrow> Inl Http404
      | Some r \<Rightarrow> Inr \<lparr>row = r, forum_cache = None\<rparr>)"

definition get_forum ::
  "'x topic_instance \<Rightarrow> 'x world \<Rightarrow> error + (forum \<times> 'x topic_instance)" where
  "get_forum t w =
     (case forum_cache t of
        Some f \<Rightarrow> Inr (f, t)
      | None \<Rightarrow>
          (case forums w (forum_id (row t)) of
             None \<Rightarrow> Inl DoesNotExist
           | Some f \<Rightarrow> Inr (f, t\<lparr>forum_cache := Some f\<rparr>)))"

definition set_forum :: "forum \<Rightarrow> 'x topic_instance \<Rightarrow> 'x topic_instance" where
  "set_forum f t = t\<lparr>row := (row t)\<lparr>forum_id := forum_pk f\<rparr>, forum_cache := Some f\<rparr>"

definition set_status :: "status \<Rightarrow> 'x topic_instance \<Rightarrow> 'x topic_instance" where
  "set_status s t = t\<lparr>row := (row t)\<lparr>status := s\<rparr>\<rparr>"

definition save_topic :: "'x topic_instance \<Rightarrow> 'x world \<Rightarrow> 'x world" where
  "save_topic t w =
     w\<lparr>topics := (topics w)(topic_pk (row t) \<mapsto> row t),
       persisted := persisted w @ [Saved_topic (row t)]\<rparr>"

definition save_forum :: "forum \<Rightarrow> 'x world \<Rightarrow> 'x world" where
  "save_forum f w =
     w\<lparr>forums := (forums w)(forum_pk f \<mapsto> f),
       persisted := persisted w @ [Saved_forum f]\<rparr>"

definition delete_topic :: "'x topic_instance \<Rightarrow> 'x world \<Rightarrow> 'x world" where
  "delete_topic t w =
     w\<lparr>topics := (topics w)(topic_pk (row t) := None),
       persisted := persisted w @ [Deleted_topic (row t)]\<rparr>"

definition messages_success :: "string \<Rightarrow> 'x world \<Rightarrow> 'x world" where
  "messages_success m w = w\<lparr>messages := messages w @ [m]\<rparr>"

definition topic_kwargs :: "forum \<Rightarrow> 'x topic_scheme \<Rightarrow> (string \<times> kwarg) list" where
  "topic_kwargs f r =
     [(''forum_slug'', KStr (forum_slug f)), (''forum_pk'', KInt (forum_pk f)),
      (''slug'', KStr (topic_slug r)), (''pk'', KInt (topic_pk r))]"

subsection \<open>TopicLockView\<close>

definition lock_success_message :: string where
  "lock_success_message = ''This topic has been locked successfully.''"

definition lock_get_success_url ::
  "'u request \<Rightarrow> 'x topic_instance \<Rightarrow> 'x world \<Rightarrow>
   (error + url \<times> 'x topic_instance) \<times> 'x world" where
  "lock_get_success_url req obj w =
     (let w1 = messages_success lock_success_message w in
      case get_forum obj w1 of
        Inl e \<Rightarrow> (Inl e, w1)
      | Inr (f, obj1) \<Rightarrow>
          (case reverse req ''forum-conversation:topic'' (topic_kwargs f (row obj1)) of
             Inl e \<Rightarrow> (Inl e, w1)
           | Inr u \<Rightarrow> (Inr (u, obj1), w1)))"

definition lock :: "'u request \<Rightarrow> 'x world \<Rightarrow> (error + response) \<times> 'x world" where
  "lock req w =
     (case get_object req w of
        Inl e \<Rightarrow> (Inl e, w)
      | Inr obj \<Rightarrow>
          (case lock_get_success_url req obj w of
             (Inl e, w1) \<Rightarrow> (Inl e, w1)
           | (Inr (success_url, obj1), w1) \<Rightarrow>
               (let obj2 = set_status topic_locked obj1;
                    w2 = save_topic obj2 w1
                in (Inr (HttpResponseRedirect success_url), w2))))"

definition lock_post :: "'u request \<Rightarrow> 'x world \<Rightarrow> (error + response) \<times> 'x world" where
  "lock_post req w = lock req w"

definition lock_perform_permissions_check :: "'u request \<Rightarrow> 'u \<Rightarrow> forum \<Rightarrow> bool" where
  "lock_perform_permissions_check req usr obj =
     can_close_topics (forum_permission_handler req) obj usr"

subsection \<open>TopicDeleteView\<close>

definition delete_success_message :: string where
  "delete_success_message = ''This topic has been deleted successfully.''"

definition forum_kwargs :: "forum \<Rightarrow> (string \<times> kwarg) list" where
  "forum_kwargs f = [(''slug'', KStr (forum_slug f)), (''pk'', KInt (forum_pk f))]"

definition delete_get_success_url ::
  "'u request \<Rightarrow> 'x topic_instance \<Rightarrow> 'x world \<Rightarrow>
   (error + url \<times> 'x topic_instance) \<times> 'x world" where
  "delete_get_success_url req obj w =
     (let w1 = messages_success delete_success_message w in
      case get_forum obj w1 of
        Inl e \<Rightarrow> (Inl e, w1)
      | Inr (f, obj1) \<Rightarrow>
          (case reverse req ''forum:forum'' (forum_kwargs f) of
             Inl e \<Rightarrow> (Inl e, w1)
           | Inr u \<Rightarrow> (Inr (u, obj1), w1)))"

definition delete :: "'u request \<Rightarrow> 'x world \<Rightarrow> (error + response) \<times> 'x world" where
  "delete req w =
     (case get_object req w of
        Inl e \<Rightarrow> (Inl e, w)
      | Inr obj \<Rightarrow>
          (case delete_get_success_url req obj w of
             (Inl e, w1) \<Rightarrow> (Inl e, w1)
           | (Inr (success_url, obj1), w1) \<Rightarrow>
               (let w2 = delete_topic obj1 w1
                in (Inr (HttpResponseRedirect success_url), w2))))"

definition delete_perform_permissions_check :: "'u request \<Rightarrow> 'u \<Rightarrow> forum \<Rightarrow> bool" where
  "delete_perform_permissions_check req usr obj =
     can_delete_topics (forum_permission_handler req) obj usr"

subsection \<open>TopicMoveView\<close>

definition move_success_message :: string where
  "move_success_message = ''This topic has been moved successfully.''"

definition move_template_name :: string where
  "move_template_name = ''forum_moderation/topic_move.html''"

definition move_get_success_url ::
  "'u request \<Rightarrow> 'x topic_instance \<Rightarrow> 'x world \<Rightarrow> error + url \<times> 'x topic_instance" where
  "move_get_success_url req obj w =
     (case get_forum obj w of
        Inl e \<Rightarrow> Inl e
      | Inr (f, obj1) \<Rightarrow>
          (case reverse req ''forum-conversation:topic'' (topic_kwargs f (row obj1)) of
             Inl e \<Rightarrow> Inl e
           | Inr u \<Rightarrow> Inr (u, obj1)))"

definition form_valid ::
  "'u request \<Rightarrow> 'x topic_instance \<Rightarrow> cleaned_data \<Rightarrow> 'x world \<Rightarrow>
   (error + response) \<times> 'x world" where
  "form_valid req obj cd w =
     (case get_forum obj w of
        Inl e \<Rightarrow> (Inl e, w)
      | Inr (old_forum, topic0) \<Rightarrow>
          (let new_forum = cd_forum cd;
               topic1 = set_forum new_forum topic0;
               topic2 = (if cd_lock_topic cd then set_status topic_locked topic1
                         else set_status topic_moved topic1);
               w1 = save_topic topic2 w;
               w2 = save_forum old_forum w1;
               w3 = messages_success move_success_message w2
           in case move_get_success_url req topic2 w3 of
                Inl e \<Rightarrow> (Inl e, w3)
              | Inr (success_url, _) \<Rightarrow> (Inr (HttpResponseRedirect success_url), w3)))"

text \<open>
  \<^verbatim>\<open>post\<close> fetches the topic and hands over to the form processing of the
  framework: a valid form reaches \<^verbatim>\<open>form_valid\<close>, an invalid one renders the
  template again.
\<close>

definition move_post :: "'u request \<Rightarrow> form \<Rightarrow> 'x world \<Rightarrow> (error + response) \<times> 'x world" where
  "move_post req frm w =
     (case get_object req w of
        Inl e \<Rightarrow> (Inl e, w)
      | Inr obj \<Rightarrow>
          (case frm of
             Invalid_form \<Rightarrow> (Inr (TemplateResponse move_template_name), w)
           | Valid_form cd \<Rightarrow> form_valid req obj cd w))"

definition move_perform_permissions_check :: "'u request \<Rightarrow> 'u \<Rightarrow> forum \<Rightarrow> bool" where
  "move_perform_permissions_check req usr obj =
     can_move_topics (forum_permission_handler req) obj usr"

subsection \<open>Permission gate\<close>

text \<open>
  The three classes define \<^verbatim>\<open>get_controlled_object\<close> with the same body,
  \<^verbatim>\<open>self.get_object().forum\<close>: a fresh fetch of the topic, then its forum.
\<close>

definition get_controlled_object :: "'u request \<Rightarrow> 'x world \<Rightarrow> error + forum" where
  "get_controlled_object req w =
     (case get_object req w of
        Inl e \<Rightarrow> Inl e
      | Inr obj \<Rightarrow> (case get_forum obj w of Inl e \<Rightarrow> Inl e | Inr (f, _) \<Rightarrow> Inr f))"

text \<open>
  Modelled from the spec: \<^verbatim>\<open>PermissionRequiredMixin\<close> (its \<^verbatim>\<open>dispatch\<close>) is
  loaded from \<^verbatim>\<open>forum_permission.mixins\<close> and is not part of this module. The
  spec says that each action's check is parameterised by the acting user and
  the controlling forum, and that the action refuses to proceed, leaving the
  denial to the framework, when the handler answers false.
\<close>

definition dispatch ::
  "('u request \<Rightarrow> 'u \<Rightarrow> forum \<Rightarrow> bool) \<Rightarrow>
   ('u request \<Rightarrow> 'x world \<Rightarrow> (error + response) \<times> 'x world) \<Rightarrow>
   'u request \<Rightarrow> 'x world \<Rightarrow> (error + response) \<times> 'x world" where
  "dispatch perform_permissions_check handler req w =
     (case get_controlled_object req w of
        Inl e \<Rightarrow> (Inl e, w)
      | Inr obj \<Rightarrow>
          if perform_permissions_check req (user req) obj then handler req w
          else (Inl PermissionDenied, w))"

definition lock_view :: "'u request \<Rightarrow> 'x world \<Rightarrow> (error + response) \<times> 'x world" where
  "lock_view = dispatch lock_perform_permissions_check lock_post"

definition delete_view :: "'u request \<Rightarrow> 'x world \<Rightarrow> (error + response) \<times> 'x world" where
  "delete_view = dispatch delete_perform_permissions_check delete"

definition move_view :: "form \<Rightarrow> 'u request \<Rightarrow> 'x world \<Rightarrow> (error + response) \<times> 'x world" where
  "move_view frm = dispatch move_perform_permissions_check (\<lambda>req. move_post req frm)"

subsection \<open>Well-formed stores and example data\<close>

text \<open>
  The topic with key \<open>pk\<close> is the row \<open>r\<close>, and its foreign key resolves to the
  forum \<open>f\<close>; both tables are keyed by the primary key of the row they hold.
\<close>

definition topic_in_forum :: "'x world \<Rightarrow> int \<Rightarrow> 'x topic_scheme \<Rightarrow> forum \<Rightarrow> bool" where
  "topic_in_forum w pk r f \<longleftrightarrow>
     topics w pk = Some r \<and> topic_pk r = pk \<and>
     forums w (forum_id r) = Some f \<and> forum_pk f = forum_id r"

text \<open>The forums a stored row refers to, by resolving its foreign key.\<close>

definition referenced_forums :: "'x world \<Rightarrow> 'x topic_scheme \<Rightarrow> forum list" where
  "referenced_forums w r = (case forums w (forum_id r) of None \<Rightarrow> [] | Some f \<Rightarrow> [f])"

definition forum_A :: forum where
  "forum_A = \<lparr>forum_pk = 1, forum_slug = ''forum-a''\<rparr>"

definition forum_B :: forum where
  "forum_B = \<lparr>forum_pk = 2, forum_slug = ''forum-b''\<rparr>"

definition topic_5 :: topic where
  "topic_5 = \<lparr>topic_pk = 5, topic_slug = ''five'', status = topic_unlocked, forum_id = 1\<rparr>"

definition topic_7 :: topic where
  "topic_7 = \<lparr>topic_pk = 7, topic_slug = ''seven'', status = topic_locked, forum_id = 1\<rparr>"

definition world_0 :: "unit world" where
  "world_0 =
     \<lparr>topics = [5 \<mapsto> topic_5, 7 \<mapsto> topic_7],
      forums = [1 \<mapsto> forum_A, 2 \<mapsto> forum_B],
      messages = [], persisted = []\<rparr>"

definition moderators_only :: "string permission_handler" where
  "moderators_only =
     \<lparr>can_close_topics = (\<lambda>f u. u = ''mod''),
      can_delete_topics = (\<lambda>f u. u = ''mod''),
      can_move_topics = (\<lambda>f u. u = ''mod'' \<and> forum_pk f = 1)\<rparr>"

text \<open>
  An example URL configuration with the two routes the views reverse. As a route
  pattern whose slug group must match at least one character does, it refuses an
  empty slug.
\<close>

definition example_urls :: urlconf where
  "example_urls name kw =
     (if (name = ''forum:forum'' \<or> name = ''forum-conversation:topic'') \<and>
         KStr [] \<notin> set (map snd kw)
      then Some \<lparr>route = name, route_kwargs = kw\<rparr> else None)"

definition request_by :: "string \<Rightarrow> int \<Rightarrow> string request" where
  "request_by u pk =
     \<lparr>user = u, forum_permission_handler = moderators_only, pk_kwarg = pk,
      urlconf = example_urls\<rparr>"

text \<open>
  A store with a topic whose slug is empty (a subject without any character a slug
  keeps), and a forum whose slug is empty, holding one topic.
\<close>

definition forum_C :: forum where
  "forum_C = \<lparr>forum_pk = 3, forum_slug = []\<rparr>"

definition topic_8 :: topic where
  "topic_8 = \<lparr>topic_pk = 8, topic_slug = [], status = topic_unlocked, forum_id = 1\<rparr>"

definition topic_9 :: topic where
  "topic_9 = \<lparr>topic_pk = 9, topic_slug = ''nine'', status = topic_unlocked, forum_id = 3\<rparr>"

definition world_1 :: "unit world" where
  "world_1 =
     \<lparr>topics = [8 \<mapsto> topic_8, 9 \<mapsto> topic_9],
      forums = [1 \<mapsto> forum_A, 3 \<mapsto> forum_C],
      messages = [], persisted = []\<rparr>"

text \<open>The row a valid move writes for the topic.\<close>

definition moved_row :: "cleaned_data \<Rightarrow> 'x topic_scheme \<Rightarrow> 'x topic_scheme" where
  "moved_row cd r =
     r\<lparr>forum_id := forum_pk (cd_forum cd),
       status := (if cd_lock_topic cd then topic_locked else topic_moved)\<rparr>"

subsection \<open>What each action computes on a well-formed store\<close>

lemma lock_run:
  assumes "topic_in_forum w (pk_kwarg req) r f"
    and "urlconf req ''forum-conversation:topic'' (topic_kwargs f r) = Some u"
  shows "lock req w =
    (Inr (HttpResponseRedirect u),
     w\<lparr>topics := (topics w)(pk_kwarg req \<mapsto> r\<lparr>status := topic_locked\<rparr>),
       messages := messages w @ [lock_success_message],
       persisted := persisted w @ [Saved_topic (r\<lparr>status := topic_locked\<rparr>)]\<rparr>)"
  using assms
  by (simp add: topic_in_forum_def lock_def get_object_def lock_get_success_url_def reverse_def
      get_forum_def messages_success_def set_status_def save_topic_def Let_def)

lemma lock_refused:
  assumes "topic_in_forum w (pk_kwarg req) r f"
    and "urlconf req ''forum-conversation:topic'' (topic_kwargs f r) = None"
  shows "lock req w =
    (Inl NoReverseMatch, w\<lparr>messages := messages w @ [lock_success_message]\<rparr>)"
  using assms
  by (simp add: topic_in_forum_def lock_def get_object_def lock_get_success_url_def reverse_def
      get_forum_def messages_success_def Let_def)

lemma delete_run:
  assumes "topic_in_forum w (pk_kwarg req) r f"
    and "urlconf req ''forum:forum'' (forum_kwargs f) = Some u"
  shows "delete req w =
    (Inr (HttpResponseRedirect u),
     w\<lparr>topics := (topics w)(pk_kwarg req := None),
       messages := messages w @ [delete_success_message],
       persisted := persisted w @ [Deleted_topic r]\<rparr>)"
  using assms
  by (simp add: topic_in_forum_def delete_def get_object_def delete_get_success_url_def
      reverse_def get_forum_def messages_success_def delete_topic_def Let_def)

lemma move_run:
  assumes "topic_in_forum w (pk_kwarg req) r f"
  shows "move_post req (Valid_form cd) w =
    ((case urlconf req ''forum-conversation:topic'' (topic_kwargs (cd_forum cd) r) of
        None \<Rightarrow> Inl NoReverseMatch
      | Some u \<Rightarrow> Inr (HttpResponseRedirect u)),
     w\<lparr>topics := (topics w)(pk_kwarg req \<mapsto> moved_row cd r),
       forums := (forums w)(forum_pk f \<mapsto> f),
       messages := messages w @ [move_success_message],
       persisted := persisted w @ [Saved_topic (moved_row cd r), Saved_forum f]\<rparr>)"
  using assms
  by (simp add: topic_in_forum_def move_post_def get_object_def form_valid_def reverse_def
      move_get_success_url_def get_forum_def messages_success_def set_status_def set_forum_def
      save_topic_def save_forum_def topic_kwargs_def moved_row_def Let_def
      split: option.split)

lemma controlled_object_run:
  assumes "topic_in_forum w (pk_kwarg req) r f"
  shows "get_controlled_object req w = Inr f"
  using assms
  by (simp add: topic_in_forum_def get_controlled_object_def get_object_def get_forum_def)

lemma delete_refused:
  assumes "topic_in_forum w (pk_kwarg req) r f"
    and "urlconf req ''forum:forum'' (forum_kwargs f) = None"
  shows "delete req w =
    (Inl NoReverseMatch, w\<lparr>messages := messages w @ [delete_success_message]\<rparr>)"
  using assms
  by (simp add: topic_in_forum_def delete_def get_object_def delete_get_success_url_def
      reverse_def get_forum_def messages_success_def Let_def)

lemma example_hyps:
  "topic_in_forum world_0 (pk_kwarg (request_by u 5)) topic_5 forum_A"
  "topic_in_forum world_0 (pk_kwarg (request_by u 7)) topic_7 forum_A"
  "topic_in_forum world_1 (pk_kwarg (request_by u 8)) topic_8 forum_A"
  "topic_in_forum world_1 (pk_kwarg (request_by u 9)) topic_9 forum_C"
  by (simp_all add: topic_in_forum_def world_0_def world_1_def topic_5_def topic_7_def
      topic_8_def topic_9_def forum_A_def forum_C_def request_by_def)

subsection \<open>The claims\<close>

text \<open>
  Claim C1. A valid move form naming the target forum \<open>B\<close> and a lock flag makes the
  move action store the topic with its forum reference set to \<open>B\<close> and its status
  set to locked when the flag is set, to moved when it is not.
\<close>

theorem move_reassigns_forum_and_status:
  assumes "topic_in_forum w (pk_kwarg req) r A"
  shows "topics (snd (move_post req (Valid_form \<lparr>cd_forum = B, cd_lock_topic = lck\<rparr>) w))
           (pk_kwarg req) =
         Some (r\<lparr>forum_id := forum_pk B,
                 status := (if lck then topic_locked else topic_moved)\<rparr>)"
  by (simp add: move_run [OF assms] moved_row_def)

theorem move_reassigns_forum_and_status_witness:
  "topic_in_forum world_0 7 topic_7 forum_A \<and>
   topics (snd (move_post (request_by ''mod'' 7)
                  (Valid_form \<lparr>cd_forum = forum_B, cd_lock_topic = True\<rparr>) world_0)) 7 =
   Some \<lparr>topic_pk = 7, topic_slug = ''seven'', status = topic_locked, forum_id = 2\<rparr>"
proof -
  have h: "topic_in_forum world_0 (pk_kwarg (request_by ''mod'' 7)) topic_7 forum_A"
    by (rule example_hyps)
  from move_reassigns_forum_and_status [OF h, of forum_B True] h
  show ?thesis
    by (simp add: request_by_def topic_7_def forum_B_def)
qed

text \<open>
  Claim C2, amended. For a topic whose topic page the URL configuration resolves, the
  lock action sets the status of the topic to locked, saves the topic, leaves its
  forum reference as it was, records the success notice, and redirects to the topic
  page built from the slug and primary key of that forum and of the topic. The URL is
  built before the status is assigned, so where the route refuses the arguments the
  action raises and the topic stays as it was, as the counterexample shows.
\<close>

theorem lock_sets_locked_and_redirects:
  assumes "topic_in_forum w (pk_kwarg req) r f"
    and "urlconf req ''forum-conversation:topic''
           [(''forum_slug'', KStr (forum_slug f)), (''forum_pk'', KInt (forum_pk f)),
            (''slug'', KStr (topic_slug r)), (''pk'', KInt (topic_pk r))] = Some u"
  shows "fst (lock req w) = Inr (HttpResponseRedirect u) \<and>
         topics (snd (lock req w)) = (topics w)(pk_kwarg req \<mapsto> r\<lparr>status := topic_locked\<rparr>) \<and>
         persisted (snd (lock req w)) = persisted w @ [Saved_topic (r\<lparr>status := topic_locked\<rparr>)] \<and>
         messages (snd (lock req w)) = messages w @ [lock_success_message] \<and>
         forums (snd (lock req w)) = forums w \<and>
         topic_in_forum (snd (lock req w)) (pk_kwarg req) (r\<lparr>status := topic_locked\<rparr>) f"
proof -
  have u: "urlconf req ''forum-conversation:topic'' (topic_kwargs f r) = Some u"
    using assms(2) by (simp add: topic_kwargs_def)
  show ?thesis
    using assms(1) by (simp add: lock_run [OF assms(1) u] topic_in_forum_def)
qed

theorem lock_sets_locked_and_redirects_witness:
  "topic_in_forum world_0 5 topic_5 forum_A \<and>
   fst (lock (request_by ''mod'' 5) world_0) =
     Inr (HttpResponseRedirect
       \<lparr>route = ''forum-conversation:topic'',
        route_kwargs = [(''forum_slug'', KStr ''forum-a''), (''forum_pk'', KInt 1),
                        (''slug'', KStr ''five''), (''pk'', KInt 5)]\<rparr>) \<and>
   topics (snd (lock (request_by ''mod'' 5) world_0)) 5 =
     Some \<lparr>topic_pk = 5, topic_slug = ''five'', status = topic_locked, forum_id = 1\<rparr> \<and>
   messages (snd (lock (request_by ''mod'' 5) world_0)) =
     [''This topic has been locked successfully.'']"
proof -
  have h: "topic_in_forum world_0 (pk_kwarg (request_by ''mod'' 5)) topic_5 forum_A"
    by (rule example_hyps)
  have u: "urlconf (request_by ''mod'' 5) ''forum-conversation:topic''
             [(''forum_slug'', KStr (forum_slug forum_A)), (''forum_pk'', KInt (forum_pk forum_A)),
              (''slug'', KStr (topic_slug topic_5)), (''pk'', KInt (topic_pk topic_5))] =
           Some \<lparr>route = ''forum-conversation:topic'',
                 route_kwargs = [(''forum_slug'', KStr ''forum-a''), (''forum_pk'', KInt 1),
                                 (''slug'', KStr ''five''), (''pk'', KInt 5)]\<rparr>"
    by (simp add: request_by_def example_urls_def forum_A_def topic_5_def)
  from lock_sets_locked_and_redirects [OF h u] h
  show ?thesis
    by (simp add: request_by_def topic_5_def world_0_def lock_success_message_def)
qed

theorem lock_unresolved_url_counterexample:
  "topic_in_forum world_1 8 topic_8 forum_A \<and> status topic_8 = topic_unlocked \<and>
   fst (lock (request_by ''mod'' 8) world_1) = Inl NoReverseMatch \<and>
   topics (snd (lock (request_by ''mod'' 8) world_1)) 8 = Some topic_8 \<and>
   map_option status (topics (snd (lock (request_by ''mod'' 8) world_1)) 8) \<noteq>
     Some topic_locked \<and>
   persisted (snd (lock (request_by ''mod'' 8) world_1)) = []"
proof -
  have h: "topic_in_forum world_1 (pk_kwarg (request_by ''mod'' 8)) topic_8 forum_A"
    by (rule example_hyps)
  have n: "urlconf (request_by ''mod'' 8) ''forum-conversation:topic''
             (topic_kwargs forum_A topic_8) = None"
    by (simp add: request_by_def example_urls_def topic_kwargs_def topic_8_def)
  from lock_refused [OF h n] h
  show ?thesis
    by (simp add: request_by_def world_1_def topic_8_def)
qed

text \<open>
  Claim C3, amended. For a topic whose forum page the URL configuration resolves, the
  delete action removes the topic from the store, redirects to the page of the forum
  the topic belonged to when the request arrived (built from the slug and primary key
  of that forum) and records the success notice. The URL is built before the topic is
  deleted, so where the route refuses the arguments the action raises and the topic
  stays stored, as the counterexample shows.
\<close>

theorem delete_removes_and_redirects:
  assumes "topic_in_forum w (pk_kwarg req) r f"
    and "urlconf req ''forum:forum''
           [(''slug'', KStr (forum_slug f)), (''pk'', KInt (forum_pk f))] = Some u"
  shows "fst (delete req w) = Inr (HttpResponseRedirect u) \<and>
         topics (snd (delete req w)) = (topics w)(pk_kwarg req := None) \<and>
         topics (snd (delete req w)) (pk_kwarg req) = None \<and>
         persisted (snd (delete req w)) = persisted w @ [Deleted_topic r] \<and>
         messages (snd (delete req w)) = messages w @ [delete_success_message]"
proof -
  have u: "urlconf req ''forum:forum'' (forum_kwargs f) = Some u"
    using assms(2) by (simp add: forum_kwargs_def)
  show ?thesis
    by (simp add: delete_run [OF assms(1) u])
qed

theorem delete_removes_and_redirects_witness:
  "topic_in_forum world_0 5 topic_5 forum_A \<and>
   fst (delete (request_by ''mod'' 5) world_0) =
     Inr (HttpResponseRedirect
       \<lparr>route = ''forum:forum'',
        route_kwargs = [(''slug'', KStr ''forum-a''), (''pk'', KInt 1)]\<rparr>) \<and>
   topics (snd (delete (request_by ''mod'' 5) world_0)) 5 = None \<and>
   topics (snd (delete (request_by ''mod'' 5) world_0)) 7 = Some topic_7 \<and>
   messages (snd (delete (request_by ''mod'' 5) world_0)) =
     [''This topic has been deleted successfully.'']"
proof -
  have h: "topic_in_forum world_0 (pk_kwarg (request_by ''mod'' 5)) topic_5 forum_A"
    by (rule example_hyps)
  have u: "urlconf (request_by ''mod'' 5) ''forum:forum''
             [(''slug'', KStr (forum_slug forum_A)), (''pk'', KInt (forum_pk forum_A))] =
           Some \<lparr>route = ''forum:forum'',
                 route_kwargs = [(''slug'', KStr ''forum-a''), (''pk'', KInt 1)]\<rparr>"
    by (simp add: request_by_def example_urls_def forum_A_def)
  from delete_removes_and_redirects [OF h u] h
  show ?thesis
    by (simp add: request_by_def world_0_def delete_success_message_def)
qed

theorem delete_unresolved_url_counterexample:
  "topic_in_forum world_1 9 topic_9 forum_C \<and>
   fst (delete (request_by ''mod'' 9) world_1) = Inl NoReverseMatch \<and>
   topics (snd (delete (request_by ''mod'' 9) world_1)) 9 = Some topic_9 \<and>
   topics (snd (delete (request_by ''mod'' 9) world_1)) 9 \<noteq> None \<and>
   persisted (snd (delete (request_by ''mod'' 9) world_1)) = []"
proof -
  have h: "topic_in_forum world_1 (pk_kwarg (request_by ''mod'' 9)) topic_9 forum_C"
    by (rule example_hyps)
  have n: "urlconf (request_by ''mod'' 9) ''forum:forum'' (forum_kwargs forum_C) = None"
    by (simp add: request_by_def example_urls_def forum_kwargs_def forum_C_def)
  from delete_refused [OF h n] h
  show ?thesis
    by (simp add: request_by_def world_1_def)
qed

text \<open>
  Claim C4. Each action asks the injected permission handler: \<^verbatim>\<open>can_close_topics\<close>
  for lock, \<^verbatim>\<open>can_delete_topics\<close> for delete, \<^verbatim>\<open>can_move_topics\<close> for move, each
  applied to the forum of the topic and the acting user. When the predicate answers
  false the action is refused and the state is untouched; otherwise the action runs.
  For move, the forum asked about is the one the topic is in before the move.
\<close>

theorem actions_gated_by_permission_handler:
  assumes "topic_in_forum w (pk_kwarg req) r f"
  shows "lock_view req w =
           (if can_close_topics (forum_permission_handler req) f (user req)
            then lock req w else (Inl PermissionDenied, w)) \<and>
         delete_view req w =
           (if can_delete_topics (forum_permission_handler req) f (user req)
            then delete req w else (Inl PermissionDenied, w)) \<and>
         move_view frm req w =
           (if can_move_topics (forum_permission_handler req) f (user req)
            then move_post req frm w else (Inl PermissionDenied, w))"
  by (simp add: lock_view_def delete_view_def move_view_def dispatch_def lock_post_def
      controlled_object_run [OF assms] lock_perform_permissions_check_def
      delete_perform_permissions_check_def move_perform_permissions_check_def)

theorem actions_gated_by_permission_handler_witness:
  "topic_in_forum world_0 5 topic_5 forum_A \<and>
   lock_view (request_by ''guest'' 5) world_0 = (Inl PermissionDenied, world_0) \<and>
   delete_view (request_by ''guest'' 5) world_0 = (Inl PermissionDenied, world_0) \<and>
   move_view (Valid_form \<lparr>cd_forum = forum_B, cd_lock_topic = False\<rparr>)
     (request_by ''guest'' 5) world_0 = (Inl PermissionDenied, world_0) \<and>
   lock_view (request_by ''mod'' 5) world_0 = lock (request_by ''mod'' 5) world_0"
proof -
  have g: "topic_in_forum world_0 (pk_kwarg (request_by ''guest'' 5)) topic_5 forum_A"
    by (rule example_hyps)
  have m: "topic_in_forum world_0 (pk_kwarg (request_by ''mod'' 5)) topic_5 forum_A"
    by (rule example_hyps)
  from actions_gated_by_permission_handler
         [OF g, of "Valid_form \<lparr>cd_forum = forum_B, cd_lock_topic = False\<rparr>"]
       actions_gated_by_permission_handler [OF m, of Invalid_form] g
  show ?thesis
    by (simp add: request_by_def moderators_only_def)
qed

text \<open>
  Claim C5. A successful move saves the topic (new forum reference, new status) and
  then the original forum, and issues no other persistence call; no other row of
  either table changes.
\<close>

theorem move_saves_topic_and_original_forum_only:
  assumes "topic_in_forum w (pk_kwarg req) r A"
  shows "persisted (snd (move_post req (Valid_form cd) w)) =
           persisted w @ [Saved_topic (moved_row cd r), Saved_forum A] \<and>
         topics (snd (move_post req (Valid_form cd) w)) =
           (topics w)(pk_kwarg req \<mapsto> moved_row cd r) \<and>
         forums (snd (move_post req (Valid_form cd) w)) = forums w"
  using assms by (auto simp add: move_run [OF assms] topic_in_forum_def)

theorem move_saves_topic_and_original_forum_only_witness:
  "topic_in_forum world_0 7 topic_7 forum_A \<and>
   persisted (snd (move_post (request_by ''mod'' 7)
                (Valid_form \<lparr>cd_forum = forum_B, cd_lock_topic = True\<rparr>) world_0)) =
     [Saved_topic \<lparr>topic_pk = 7, topic_slug = ''seven'', status = topic_locked, forum_id = 2\<rparr>,
      Saved_forum \<lparr>forum_pk = 1, forum_slug = ''forum-a''\<rparr>] \<and>
   forums (snd (move_post (request_by ''mod'' 7)
                (Valid_form \<lparr>cd_forum = forum_B, cd_lock_topic = True\<rparr>) world_0)) =
     forums world_0"
proof -
  have h: "topic_in_forum world_0 (pk_kwarg (request_by ''mod'' 7)) topic_7 forum_A"
    by (rule example_hyps)
  from move_saves_topic_and_original_forum_only
         [OF h, of "\<lparr>cd_forum = forum_B, cd_lock_topic = True\<rparr>"] h
  show ?thesis
    by (simp add: request_by_def topic_7_def forum_A_def forum_B_def moved_row_def world_0_def)
qed



text \<open>
  Claim C7. A topic refers to exactly one forum, and lock and move keep it so. Lock
  leaves the reference alone: whether or not it completes, the row stored for the
  topic still resolves to its forum \<open>A\<close> alone. Move to a stored forum replaces it:
  the topic resolves to the target forum alone. Neither action changes what any
  other row resolves to.
\<close>

theorem lock_and_move_keep_one_forum_reference:
  assumes "topic_in_forum w (pk_kwarg req) r A"
    and "forums w (forum_pk (cd_forum cd)) = Some (cd_forum cd)"
  shows "referenced_forums w r = [A] \<and>
         topics (snd (lock req w)) =
           (case urlconf req ''forum-conversation:topic'' (topic_kwargs A r) of
              None \<Rightarrow> topics w
            | Some u \<Rightarrow> (topics w)(pk_kwarg req \<mapsto> r\<lparr>status := topic_locked\<rparr>)) \<and>
         map_option (referenced_forums (snd (lock req w)))
           (topics (snd (lock req w)) (pk_kwarg req)) = Some [A] \<and>
         map_option forum_id (topics (snd (lock req w)) (pk_kwarg req)) = Some (forum_id r) \<and>
         referenced_forums (snd (lock req w)) = referenced_forums w \<and>
         referenced_forums (snd (lock req w)) (r\<lparr>status := topic_locked\<rparr>) = [A] \<and>
         topics (snd (move_post req (Valid_form cd) w)) =
           (topics w)(pk_kwarg req \<mapsto> moved_row cd r) \<and>
         referenced_forums (snd (move_post req (Valid_form cd) w)) = referenced_forums w \<and>
         referenced_forums (snd (move_post req (Valid_form cd) w)) (moved_row cd r) =
           [cd_forum cd]"
proof -
  have same: "(forums w)(forum_pk A \<mapsto> A) = forums w"
    using assms(1) by (auto simp add: topic_in_forum_def)
  have stored: "topics w (pk_kwarg req) = Some r"
    using assms(1) by (simp add: topic_in_forum_def)
  have before: "referenced_forums w r = [A]"
    using assms(1) by (simp add: referenced_forums_def topic_in_forum_def)
  have lkd: "referenced_forums w (r\<lparr>status := topic_locked\<rparr>) = [A]"
    using before by (simp add: referenced_forums_def)
  have tgt: "referenced_forums w (moved_row cd r) = [cd_forum cd]"
    using assms(2) by (simp add: referenced_forums_def moved_row_def)
  have mv: "referenced_forums (snd (move_post req (Valid_form cd) w)) = referenced_forums w"
    by (rule ext) (simp add: move_run [OF assms(1)] referenced_forums_def same)
  have mt: "topics (snd (move_post req (Valid_form cd) w)) =
              (topics w)(pk_kwarg req \<mapsto> moved_row cd r)"
    by (simp add: move_run [OF assms(1)])
  have lock_part:
    "topics (snd (lock req w)) =
       (case urlconf req ''forum-conversation:topic'' (topic_kwargs A r) of
          None \<Rightarrow> topics w
        | Some u \<Rightarrow> (topics w)(pk_kwarg req \<mapsto> r\<lparr>status := topic_locked\<rparr>)) \<and>
     referenced_forums (snd (lock req w)) = referenced_forums w"
  proof (cases "urlconf req ''forum-conversation:topic'' (topic_kwargs A r)")
    case None
    have "referenced_forums (snd (lock req w)) = referenced_forums w"
      by (rule ext) (simp add: lock_refused [OF assms(1) None] referenced_forums_def)
    then show ?thesis
      by (simp add: None lock_refused [OF assms(1) None])
  next
    case (Some u)
    have "referenced_forums (snd (lock req w)) = referenced_forums w"
      by (rule ext) (simp add: lock_run [OF assms(1) Some] referenced_forums_def)
    then show ?thesis
      by (simp add: Some lock_run [OF assms(1) Some])
  qed
  have lt: "map_option (referenced_forums w) (topics (snd (lock req w)) (pk_kwarg req)) =
              Some [A] \<and>
            map_option forum_id (topics (snd (lock req w)) (pk_kwarg req)) = Some (forum_id r)"
    using lock_part stored before lkd by (simp split: option.splits)
  show ?thesis
    using before lkd tgt lt lock_part by (simp add: mv mt)
qed

theorem lock_and_move_keep_one_forum_reference_witness:
  "topic_in_forum world_0 7 topic_7 forum_A \<and>
   forums world_0 (forum_pk forum_B) = Some forum_B \<and>
   referenced_forums world_0 topic_7 = [forum_A] \<and>
   referenced_forums (snd (lock (request_by ''mod'' 7) world_0))
     (topic_7\<lparr>status := topic_locked\<rparr>) = [forum_A] \<and>
   referenced_forums
     (snd (move_post (request_by ''mod'' 7)
             (Valid_form \<lparr>cd_forum = forum_B, cd_lock_topic = False\<rparr>) world_0))
     (moved_row \<lparr>cd_forum = forum_B, cd_lock_topic = False\<rparr> topic_7) = [forum_B]"
proof -
  have h: "topic_in_forum world_0 (pk_kwarg (request_by ''mod'' 7)) topic_7 forum_A"
    by (rule example_hyps)
  have b: "forums world_0 (forum_pk (cd_forum \<lparr>cd_forum = forum_B, cd_lock_topic = False\<rparr>)) =
             Some (cd_forum \<lparr>cd_forum = forum_B, cd_lock_topic = False\<rparr>)"
    by (simp add: world_0_def forum_B_def)
  from lock_and_move_keep_one_forum_reference [OF h b] h b
  show ?thesis
    by (simp add: request_by_def referenced_forums_def world_0_def topic_7_def
        forum_A_def forum_B_def moved_row_def)
qed

text \<open>
  Claim C8. Move overwrites the status whatever it was: with the lock flag unset the
  stored status is moved, also for a topic that was locked.
\<close>

theorem move_overwrites_previous_status:
  assumes "topic_in_forum w (pk_kwarg req) r A"
  shows "map_option status
           (topics (snd (move_post req (Valid_form \<lparr>cd_forum = B, cd_lock_topic = False\<rparr>) w))
              (pk_kwarg req)) = Some topic_moved"
  by (simp add: move_run [OF assms] moved_row_def)

theorem move_overwrites_previous_status_witness:
  "topic_in_forum world_0 7 topic_7 forum_A \<and> status topic_7 = topic_locked \<and>
   map_option status
     (topics (snd (move_post (request_by ''mod'' 7)
                     (Valid_form \<lparr>cd_forum = forum_B, cd_lock_topic = False\<rparr>) world_0)) 7) =
   Some topic_moved"
proof -
  have h: "topic_in_forum world_0 (pk_kwarg (request_by ''mod'' 7)) topic_7 forum_A"
    by (rule example_hyps)
  from move_overwrites_previous_status [OF h, of forum_B] h
  show ?thesis
    by (simp add: request_by_def topic_7_def)
qed

text \<open>
  Claim C9. Lock is idempotent: locking a second time gives the same result and
  leaves both tables, hence every field of the topic, as the first lock left them.
\<close>

theorem lock_idempotent:
  assumes "topic_in_forum w (pk_kwarg req) r f"
  shows "fst (lock req (snd (lock req w))) = fst (lock req w) \<and>
         topics (snd (lock req (snd (lock req w)))) = topics (snd (lock req w)) \<and>
         forums (snd (lock req (snd (lock req w)))) = forums (snd (lock req w))"
proof (cases "urlconf req ''forum-conversation:topic'' (topic_kwargs f r)")
  case None
  let ?w1 = "snd (lock req w)"
  have again: "topic_in_forum ?w1 (pk_kwarg req) r f"
    using assms by (simp add: lock_refused [OF assms None] topic_in_forum_def)
  show ?thesis
    by (simp add: lock_refused [OF again None]) (simp add: lock_refused [OF assms None])
next
  case (Some u)
  let ?w1 = "snd (lock req w)"
  have again: "topic_in_forum ?w1 (pk_kwarg req) (r\<lparr>status := topic_locked\<rparr>) f"
    using assms by (simp add: lock_run [OF assms Some] topic_in_forum_def)
  have u: "urlconf req ''forum-conversation:topic''
             (topic_kwargs f (r\<lparr>status := topic_locked\<rparr>)) = Some u"
    using Some by (simp add: topic_kwargs_def)
  show ?thesis
    by (simp add: lock_run [OF again u]) (simp add: lock_run [OF assms Some])
qed

theorem lock_idempotent_witness:
  "topic_in_forum world_0 5 topic_5 forum_A \<and>
   fst (lock (request_by ''mod'' 5) (snd (lock (request_by ''mod'' 5) world_0))) =
     fst (lock (request_by ''mod'' 5) world_0) \<and>
   topics (snd (lock (request_by ''mod'' 5) (snd (lock (request_by ''mod'' 5) world_0)))) =
     topics (snd (lock (request_by ''mod'' 5) world_0)) \<and>
   forums (snd (lock (request_by ''mod'' 5) (snd (lock (request_by ''mod'' 5) world_0)))) =
     forums (snd (lock (request_by ''mod'' 5) world_0))"
proof -
  have h: "topic_in_forum world_0 (pk_kwarg (request_by ''mod'' 5)) topic_5 forum_A"
    by (rule example_hyps)
  from lock_idempotent [OF h] h
  show ?thesis
    by (simp add: request_by_def)
qed

text \<open>
  Claim C10. Delete records the success notice and computes the success URL from the
  forum of the topic in a state where the topic is still stored, and only then
  removes the topic. When the computation yields a URL, the topic is removed and the
  redirect returned is that URL. When the computation raises (the forum is missing,
  or the route refuses the arguments), the action stops there: nothing has been
  removed and no persistence call has been issued.
\<close>

theorem delete_url_computed_before_removal:
  assumes "topics w (pk_kwarg req) = Some r" and "topic_pk r = pk_kwarg req"
  shows "snd (delete_get_success_url req \<lparr>row = r, forum_cache = None\<rparr> w) =
           messages_success delete_success_message w \<and>
         topics (snd (delete_get_success_url req \<lparr>row = r, forum_cache = None\<rparr> w))
           (pk_kwarg req) = Some r \<and>
         messages (snd (delete req w)) = messages w @ [delete_success_message] \<and>
         (\<forall>e. fst (delete_get_success_url req \<lparr>row = r, forum_cache = None\<rparr> w) = Inl e \<longrightarrow>
              fst (delete req w) = Inl e \<and>
              topics (snd (delete req w)) = topics w \<and>
              persisted (snd (delete req w)) = persisted w) \<and>
         (\<forall>u obj. fst (delete_get_success_url req \<lparr>row = r, forum_cache = None\<rparr> w) =
                    Inr (u, obj) \<longrightarrow>
              fst (delete req w) = Inr (HttpResponseRedirect u) \<and>
              snd (delete req w) =
                delete_topic obj (snd (delete_get_success_url req \<lparr>row = r, forum_cache = None\<rparr> w)) \<and>
              topics (snd (delete req w)) = (topics w)(pk_kwarg req := None) \<and>
              persisted (snd (delete req w)) = persisted w @ [Deleted_topic r])"
  using assms
  by (auto simp add: delete_def get_object_def delete_get_success_url_def reverse_def
      get_forum_def messages_success_def delete_topic_def Let_def
      split: option.splits sum.splits)

theorem delete_url_computed_before_removal_witness:
  "topics world_0 5 = Some topic_5 \<and> topic_pk topic_5 = 5 \<and>
   fst (delete_get_success_url (request_by ''mod'' 5) \<lparr>row = topic_5, forum_cache = None\<rparr>
          world_0) =
     Inr (\<lparr>route = ''forum:forum'',
           route_kwargs = [(''slug'', KStr ''forum-a''), (''pk'', KInt 1)]\<rparr>,
          \<lparr>row = topic_5, forum_cache = Some forum_A\<rparr>) \<and>
   fst (delete (request_by ''mod'' 5) world_0) =
     Inr (HttpResponseRedirect
            \<lparr>route = ''forum:forum'',
             route_kwargs = [(''slug'', KStr ''forum-a''), (''pk'', KInt 1)]\<rparr>) \<and>
   topics (snd (delete (request_by ''mod'' 5) world_0)) 5 = None \<and>
   messages (snd (delete (request_by ''mod'' 5) world_0)) =
     [''This topic has been deleted successfully.''] \<and>
   topics world_1 9 = Some topic_9 \<and> topic_pk topic_9 = 9 \<and>
   fst (delete_get_success_url (request_by ''mod'' 9) \<lparr>row = topic_9, forum_cache = None\<rparr>
          world_1) = Inl NoReverseMatch \<and>
   fst (delete (request_by ''mod'' 9) world_1) = Inl NoReverseMatch \<and>
   topics (snd (delete (request_by ''mod'' 9) world_1)) = topics world_1 \<and>
   messages (snd (delete (request_by ''mod'' 9) world_1)) =
     [''This topic has been deleted successfully.'']"
proof -
  have a: "topics world_0 (pk_kwarg (request_by ''mod'' 5)) = Some topic_5"
    and a': "topic_pk topic_5 = pk_kwarg (request_by ''mod'' 5)"
    by (simp_all add: world_0_def topic_5_def request_by_def)
  have b: "topics world_1 (pk_kwarg (request_by ''mod'' 9)) = Some topic_9"
    and b': "topic_pk topic_9 = pk_kwarg (request_by ''mod'' 9)"
    by (simp_all add: world_1_def topic_9_def request_by_def)
  have ua: "fst (delete_get_success_url (request_by ''mod'' 5)
                   \<lparr>row = topic_5, forum_cache = None\<rparr> world_0) =
            Inr (\<lparr>route = ''forum:forum'',
                  route_kwargs = [(''slug'', KStr ''forum-a''), (''pk'', KInt 1)]\<rparr>,
                 \<lparr>row = topic_5, forum_cache = Some forum_A\<rparr>)"
    by (simp add: delete_get_success_url_def get_forum_def reverse_def messages_success_def
        request_by_def example_urls_def forum_kwargs_def world_0_def topic_5_def forum_A_def
        Let_def)
  have ub: "fst (delete_get_success_url (request_by ''mod'' 9)
                   \<lparr>row = topic_9, forum_cache = None\<rparr> world_1) = Inl NoReverseMatch"
    by (simp add: delete_get_success_url_def get_forum_def reverse_def messages_success_def
        request_by_def example_urls_def forum_kwargs_def world_1_def topic_9_def forum_C_def
        Let_def)
  from delete_url_computed_before_removal [OF a a'] delete_url_computed_before_removal [OF b b']
       a a' b b' ua ub
  show ?thesis
    by (simp add: request_by_def world_0_def world_1_def delete_success_message_def
        delete_topic_def messages_success_def topic_5_def)
qed

end
